theory Spec2Isabelle
  imports Complex_Main "HOL-Library.Sublist"
begin

section \<open>Python values\<close>

text \<open>
  The program is the single module \<^verbatim>\<open>backup.py\<close>. A Python \<^verbatim>\<open>str\<close> is modelled as a
  \<^typ>\<open>string\<close>; one \<^typ>\<open>char\<close> stands for one code point below 256, so a string of the model
  is a Python string over that range. \<^verbatim>\<open>str.strip()\<close> removes the code points for which
  \<^verbatim>\<open>str.isspace()\<close> holds; below 256 these are 9 to 13, 28 to 32, 133 and 160.
\<close>

definition is_space :: "char \<Rightarrow> bool" where
  "is_space c = (of_char c \<in> {9, 10, 11, 12, 13, 28, 29, 30, 31, 32, 133, 160 :: nat})"

definition strip :: "string \<Rightarrow> string" where
  "strip s = rev (dropWhile is_space (rev (dropWhile is_space s)))"

text \<open>\<^verbatim>\<open>s.rstrip(c)\<close> for a one-character argument: every trailing \<open>c\<close> is removed.\<close>

definition rstrip :: "char \<Rightarrow> string \<Rightarrow> string" where
  "rstrip c s = rev (dropWhile (\<lambda>x. x = c) (rev s))"

definition startswith :: "string \<Rightarrow> string \<Rightarrow> bool" where
  "startswith s p = (take (length p) s = p)"

definition endswith :: "string \<Rightarrow> string \<Rightarrow> bool" where
  "endswith s p = (length p \<le> length s \<and> drop (length s - length p) s = p)"

text \<open>Truthiness of an optional string, as in \<^verbatim>\<open>if explicit_key:\<close>: neither \<^verbatim>\<open>None\<close> nor empty.\<close>

definition str_truthy :: "string option \<Rightarrow> bool" where
  "str_truthy s = (case s of None \<Rightarrow> False | Some x \<Rightarrow> x \<noteq> [])"

text \<open>
  The value that \<^verbatim>\<open>client.call\<close> returns is a decoded JSON document. A \<^verbatim>\<open>dict\<close> is an
  association list looked up with \<^const>\<open>map_of\<close>; a float that is not a number or is infinite
  is outside the model.
\<close>

datatype json =
    JNull
  | JBool bool
  | JInt int
  | JFloat real
  | JStr string
  | JList "json list"
  | JDict "(string \<times> json) list"

fun truthy :: "json \<Rightarrow> bool" where
  "truthy JNull = False"
| "truthy (JBool b) = b"
| "truthy (JInt i) = (i \<noteq> 0)"
| "truthy (JFloat x) = (x \<noteq> 0)"
| "truthy (JStr s) = (s \<noteq> [])"
| "truthy (JList xs) = (xs \<noteq> [])"
| "truthy (JDict kvs) = (kvs \<noteq> [])"

text \<open>\<^verbatim>\<open>a or b\<close> is \<open>a\<close> when \<open>a\<close> is truthy and \<open>b\<close> otherwise; \<^verbatim>\<open>d.get(k)\<close> is \<^verbatim>\<open>None\<close> for a
  key that is absent.\<close>

definition py_or :: "json \<Rightarrow> json \<Rightarrow> json" where
  "py_or a b = (if truthy a then a else b)"

definition dict_get :: "(string \<times> json) list \<Rightarrow> string \<Rightarrow> json" where
  "dict_get d k = (case map_of d k of None \<Rightarrow> JNull | Some v \<Rightarrow> v)"

section \<open>Exceptions, responses and the outside world\<close>

text \<open>
  A \<^verbatim>\<open>requests.Response\<close>: the status code, the body as bytes (\<^verbatim>\<open>resp.content\<close>) and the
  body decoded as text (\<^verbatim>\<open>resp.text\<close>).
\<close>

record response =
  status_code :: int
  content :: string
  body_text :: string

text \<open>The two messages with which \<^verbatim>\<open>start_download_session\<close> raises \<^verbatim>\<open>RuntimeError\<close>.\<close>

datatype runtime_message =
    Unexpected_response json
  | No_download_URL

text \<open>
  Every exception of the model is a subclass of \<^verbatim>\<open>Exception\<close>. \<open>HTTPError\<close> is
  \<^verbatim>\<open>requests.HTTPError\<close> with the response it carries; \<open>ClientError\<close> stands for whatever the
  API client or the HTTP transport raises (connection refused, TLS failure, rejected login,
  timeout), with its message.
\<close>

datatype exn =
    RuntimeError runtime_message
  | HTTPError response
  | AttributeError string
  | OSError string
  | ClientError string

text \<open>
  An entry of the output directory. \<open>locked\<close> says that \<^verbatim>\<open>unlink\<close> on the entry raises
  (a permission or sharing violation); \<open>mtime\<close> is \<^verbatim>\<open>st_mtime\<close>, of which only the order is
  used.
\<close>

record entry =
  name :: string
  is_file :: bool
  mtime :: int
  locked :: bool
  data :: string

text \<open>What \<^verbatim>\<open>main\<close> prints, one value per call of \<^verbatim>\<open>print\<close>.\<close>

datatype message =
    Missing_key_message
  | HTTP_error_message int string
  | Error_message exn
  | Wrote_message string

text \<open>
  A request that reaches the appliance: one session of the API client (connect, log in with
  the key, call \<^verbatim>\<open>core.download\<close>), with the address, whether TLS goes unverified, the
  key and the \<^verbatim>\<open>secretseed\<close> option; or one HTTP GET, with the address, the query
  parameters and whether TLS is verified.
\<close>

datatype call =
    Session_call string bool string bool
  | Get_call string "(string \<times> json) list" bool

text \<open>
  Everything outside the process that one run reads or changes: the environment variable, the
  file system (reading a text file, creating the output directory, the listing of the output
  directory in the order \<^verbatim>\<open>glob\<close> yields it, whether writing the new backup fails), the
  appliance (the outcome of a session and of the HTTP GET, and the requests it has received so
  far), the clock and the two output streams. The program works on one output directory, so a
  file of it is known by its name.
\<close>

record world =
  environ_api_key :: "string option"
  file_read :: "string \<Rightarrow> exn + string"
  mkdir_error :: "exn option"
  core_download :: "string \<Rightarrow> bool \<Rightarrow> string \<Rightarrow> bool \<Rightarrow> exn + json"
  requests_get :: "string \<Rightarrow> (string \<times> json) list \<Rightarrow> bool \<Rightarrow> exn + response"
  calls :: "call list"
  clock_stamp :: string
  clock_mtime :: int
  write_error :: "exn option"
  listing :: "entry list"
  stdout :: "message list"
  stderr :: "message list"

text \<open>The parsed command line.\<close>

record args =
  host :: string
  out_dir :: string
  api_key :: "string option"
  api_key_file :: "string option"
  include_secrets :: bool
  no_verify_tls :: bool
  retention :: int

text \<open>How \<^verbatim>\<open>main\<close> ends: it returns an exit code, or an exception leaves it uncaught.\<close>

datatype outcome =
    Returned int
  | Raised exn

section \<open>Credentials\<close>

definition read_api_key :: "world \<Rightarrow> string option \<Rightarrow> string option \<Rightarrow> exn + string option" where
  "read_api_key w explicit_key api_key_file' =
    (if str_truthy explicit_key then Inr (Some (strip (the explicit_key)))
     else if str_truthy api_key_file' then
       (case file_read w (the api_key_file') of
          Inl e \<Rightarrow> Inl e
        | Inr f \<Rightarrow> Inr (Some (strip f)))
     else
       (let env_key = environ_api_key w in
        if str_truthy env_key then Inr (Some (strip (the env_key))) else Inr None))"

text \<open>\<^verbatim>\<open>pathlib.Path(path).mkdir(parents=True, exist_ok=True)\<close>.\<close>

definition ensure_output_dir :: "world \<Rightarrow> string \<Rightarrow> exn + unit" where
  "ensure_output_dir w path = (case mkdir_error w of Some e \<Rightarrow> Inl e | None \<Rightarrow> Inr ())"

section \<open>Addresses\<close>

definition build_ws_base :: "string \<Rightarrow> string" where
  "build_ws_base host' =
    (let h = strip host' in
     if startswith h ''ws://'' \<or> startswith h ''wss://'' then rstrip CHR ''/'' h
     else if startswith h ''http://'' then ''ws://'' @ rstrip CHR ''/'' (drop (length ''http://'') h)
     else if startswith h ''https://'' then ''wss://'' @ rstrip CHR ''/'' (drop (length ''https://'') h)
     else ''wss://'' @ h)"

definition build_http_base :: "string \<Rightarrow> string" where
  "build_http_base host' =
    (let h = strip host' in
     if startswith h ''http://'' \<or> startswith h ''https://'' then rstrip CHR ''/'' h
     else if startswith h ''ws://'' then ''http://'' @ rstrip CHR ''/'' (drop (length ''ws://'') h)
     else if startswith h ''wss://'' then ''https://'' @ rstrip CHR ''/'' (drop (length ''wss://'') h)
     else ''https://'' @ h)"

definition ws_api_url :: "string \<Rightarrow> string" where
  "ws_api_url host' =
    (let base = build_ws_base host' in
     if endswith base ''/api/current'' then base else base @ ''/api/current'')"

definition http_api_base :: "string \<Rightarrow> string" where
  "http_api_base host' = build_http_base host'"

section \<open>Session initiation\<close>

text \<open>
  Lines 90 to 100 of \<^verbatim>\<open>start_download_session\<close>: the reply of \<^verbatim>\<open>core.download\<close> is taken
  apart. \<^verbatim>\<open>a or b or c\<close> associates to the left.
\<close>

definition parse_download_reply :: "json \<Rightarrow> exn + json \<times> json" where
  "parse_download_reply result =
    (case
       (case result of
          JDict d \<Rightarrow>
            Inr (py_or (py_or (dict_get d ''url'') (dict_get d ''result'')) (dict_get d ''job_url''),
                 py_or (dict_get d ''token'') (dict_get d ''auth_token''))
        | JList xs \<Rightarrow>
            if 2 \<le> length xs then Inr (xs ! 1, if 3 \<le> length xs then xs ! 2 else JNull)
            else Inl (RuntimeError (Unexpected_response result))
        | _ \<Rightarrow> Inl (RuntimeError (Unexpected_response result)))
     of
       Inl e \<Rightarrow> Inl e
     | Inr (dl_url, token) \<Rightarrow>
         if \<not> truthy dl_url then Inl (RuntimeError No_download_URL)
         else Inr (dl_url, py_or token (JStr [])))"

text \<open>
  The wording of claim C2, ``the first present value among the keys'': the value of the first
  of the keys that the mapping holds. It is compared with the parser below.
\<close>

definition claimed_first_present :: "(string \<times> json) list \<Rightarrow> string list \<Rightarrow> json option" where
  "claimed_first_present d ks =
    (case filter (\<lambda>k. map_of d k \<noteq> None) ks of [] \<Rightarrow> None | k # _ \<Rightarrow> map_of d k)"

text \<open>
  The whole function. The client is given the control-channel address and, for a
  \<^verbatim>\<open>wss://\<close> address with verification switched off, a TLS context that verifies nothing
  (\<open>True\<close> below); an exception of the client leaves the function. The session is the one
  request the function makes.
\<close>

definition start_download_session ::
    "world \<Rightarrow> string \<Rightarrow> string \<Rightarrow> bool \<Rightarrow> bool \<Rightarrow> (exn + json \<times> json) \<times> world" where
  "start_download_session w host' api_key' include_secrets' verify_tls =
    (let uri = ws_api_url host';
         unverified = (startswith uri ''wss://'' \<and> \<not> verify_tls);
         w' = w\<lparr>calls := calls w @ [Session_call uri unverified api_key' include_secrets']\<rparr>
     in (case core_download w uri unverified api_key' include_secrets' of
           Inl e \<Rightarrow> Inl e
         | Inr result \<Rightarrow> parse_download_reply result,
         w'))"

section \<open>Fetching the artifact\<close>

text \<open>
  \<^verbatim>\<open>Response.raise_for_status\<close> belongs to the \<^verbatim>\<open>requests\<close> library: it raises
  \<^verbatim>\<open>HTTPError\<close>, carrying the response, for a status code from 400 to 599 and returns
  for every other one.
\<close>

definition raise_for_status :: "response \<Rightarrow> exn + unit" where
  "raise_for_status resp =
    (if 400 \<le> status_code resp \<and> status_code resp < 600 then Inl (HTTPError resp) else Inr ())"

text \<open>Lines 104 to 109 of \<^verbatim>\<open>download_file\<close>: the address that is fetched.\<close>

definition full_url :: "string \<Rightarrow> string \<Rightarrow> string" where
  "full_url host' download_url =
    (let base = http_api_base host' in
     if startswith download_url ''http://'' \<or> startswith download_url ''https://''
     then download_url else base @ download_url)"

text \<open>
  The download address and the token are whatever the reply held; a value that is not a
  string has no \<^verbatim>\<open>startswith\<close>, and the function raises before any request is made.
\<close>

definition download_file ::
    "world \<Rightarrow> string \<Rightarrow> json \<Rightarrow> json \<Rightarrow> bool \<Rightarrow> (exn + string) \<times> world" where
  "download_file w host' download_url token verify_tls =
    (case download_url of
       JStr u \<Rightarrow>
         (let params = (if truthy token then [(''auth_token'', token)] else []);
              w' = w\<lparr>calls := calls w @ [Get_call (full_url host' u) params verify_tls]\<rparr>
          in (case requests_get w (full_url host' u) params verify_tls of
                Inl e \<Rightarrow> Inl e
              | Inr resp \<Rightarrow>
                  (case raise_for_status resp of
                     Inl e \<Rightarrow> Inl e
                   | Inr _ \<Rightarrow> Inr (content resp)),
              w'))
     | _ \<Rightarrow> (Inl (AttributeError ''startswith''), w))"

section \<open>Retention\<close>

text \<open>
  \<^verbatim>\<open>glob('truenas_config_*.tar')\<close> on the names of one directory: the star stands for any
  run of characters, the empty one too.
\<close>

definition glob_match :: "string \<Rightarrow> bool" where
  "glob_match n =
    (length ''truenas_config_'' + length ''.tar'' \<le> length n \<and>
     startswith n ''truenas_config_'' \<and> endswith n ''.tar'')"

text \<open>
  \<^verbatim>\<open>Path.unlink\<close>: the entry of that name goes, unless there is none or it cannot be
  removed.
\<close>

definition unlink :: "entry list \<Rightarrow> string \<Rightarrow> exn + entry list" where
  "unlink dir n =
    (case find (\<lambda>e. name e = n) dir of
       None \<Rightarrow> Inl (OSError ''FileNotFoundError'')
     | Some e \<Rightarrow>
         if locked e then Inl (OSError ''PermissionError'')
         else Inr (filter (\<lambda>x. name x \<noteq> n) dir))"

text \<open>
  The loop of \<^verbatim>\<open>enforce_retention\<close>, with its \<^verbatim>\<open>try\<close> and \<^verbatim>\<open>except Exception: pass\<close>.
  It yields the directory as the loop leaves it and the names on which \<^verbatim>\<open>unlink\<close> was
  called, in the order of the calls.
\<close>

fun unlink_each :: "entry list \<Rightarrow> entry list \<Rightarrow> entry list \<times> string list" where
  "unlink_each dir [] = (dir, [])"
| "unlink_each dir (old # olds) =
    (case unlink_each (case unlink dir (name old) of Inl _ \<Rightarrow> dir | Inr dir' \<Rightarrow> dir') olds of
       (dir'', tried) \<Rightarrow> (dir'', name old # tried))"

text \<open>
  The files the pruner looks at: the list comprehension over the \<^verbatim>\<open>glob\<close>, and that list
  sorted newest first. \<^verbatim>\<open>sorted\<close> is stable also with \<^verbatim>\<open>reverse=True\<close>, as is
  \<^const>\<open>sort_key\<close> on the negated key.
\<close>

definition matching_files :: "entry list \<Rightarrow> entry list" where
  "matching_files dir = filter (\<lambda>f. glob_match (name f) \<and> is_file f) dir"

definition backup_files :: "entry list \<Rightarrow> entry list" where
  "backup_files dir = sort_key (\<lambda>p. - mtime p) (matching_files dir)"

definition enforce_retention :: "entry list \<Rightarrow> int \<Rightarrow> entry list \<times> string list" where
  "enforce_retention dir retention' =
    (if retention' \<le> 0 then (dir, [])
     else let files = backup_files dir in unlink_each dir (drop (nat retention') files))"

section \<open>The run\<close>

text \<open>
  Lines 163 to 166 of \<^verbatim>\<open>main\<close>: the backup is written under its time-stamped name. A
  failure is \<^verbatim>\<open>open\<close> raising before anything is created. A file of that name is
  overwritten in place; a new file comes last in the listing.
\<close>

definition out_name :: "world \<Rightarrow> string" where
  "out_name w = ''truenas_config_'' @ clock_stamp w @ ''.tar''"

definition write_backup :: "world \<Rightarrow> string \<Rightarrow> exn + world" where
  "write_backup w bytes =
    (case write_error w of
       Some e \<Rightarrow> Inl e
     | None \<Rightarrow>
         (case find (\<lambda>e. name e = out_name w) (listing w) of
            None \<Rightarrow>
              Inr (w\<lparr>listing := listing w @
                [\<lparr>name = out_name w, is_file = True, mtime = clock_mtime w, locked = False,
                  data = bytes\<rparr>]\<rparr>)
          | Some e \<Rightarrow>
              if is_file e then
                Inr (w\<lparr>listing := map (\<lambda>x. if name x = out_name w
                  then x\<lparr>mtime := clock_mtime w, data := bytes\<rparr> else x) (listing w)\<rparr>)
              else Inl (OSError ''IsADirectoryError'')))"

text \<open>The body of the \<^verbatim>\<open>try\<close> statement of \<^verbatim>\<open>main\<close>.\<close>

definition fetch :: "args \<Rightarrow> world \<Rightarrow> string \<Rightarrow> (exn + string) \<times> world" where
  "fetch a w key =
    (let verify_tls = \<not> no_verify_tls a in
     case start_download_session w (host a) key (include_secrets a) verify_tls of
       (Inl e, w1) \<Rightarrow> (Inl e, w1)
     | (Inr (download_url, token), w1) \<Rightarrow>
         download_file w1 (host a) download_url token verify_tls)"

definition main :: "args \<Rightarrow> world \<Rightarrow> outcome \<times> world" where
  "main a w =
    (case read_api_key w (api_key a) (api_key_file a) of
       Inl e \<Rightarrow> (Raised e, w)
     | Inr key \<Rightarrow>
         if \<not> str_truthy key then (Returned 2, w\<lparr>stderr := stderr w @ [Missing_key_message]\<rparr>)
         else
           (case ensure_output_dir w (out_dir a) of
              Inl e \<Rightarrow> (Raised e, w)
            | Inr _ \<Rightarrow>
                (case fetch a w (the key) of
                   (Inl (HTTPError r), w1) \<Rightarrow>
                     (Returned 1,
                      w1\<lparr>stderr := stderr w1 @
                        [HTTP_error_message (status_code r) (body_text r)]\<rparr>)
                 | (Inl e, w1) \<Rightarrow> (Returned 1, w1\<lparr>stderr := stderr w1 @ [Error_message e]\<rparr>)
                 | (Inr bytes, w1) \<Rightarrow>
                     (case write_backup w1 bytes of
                        Inl e \<Rightarrow> (Raised e, w1)
                      | Inr w' \<Rightarrow>
                          (Returned 0,
                           w'\<lparr>stdout := stdout w' @ [Wrote_message (out_name w')],
                              listing := fst (enforce_retention (listing w') (retention a))\<rparr>)))))"


section \<open>Example runs\<close>

text \<open>
  Five backups of known age, listed in no particular order, and a world in which every step
  of a run succeeds: the appliance accepts the key \<open>from-flag\<close> only and answers with a
  relative download address and a token.
\<close>

definition five_backups :: "entry list" where
  "five_backups =
    [\<lparr>name = ''truenas_config_20240103_020000.tar'', is_file = True, mtime = 300,
      locked = False, data = ''c''\<rparr>,
     \<lparr>name = ''truenas_config_20240101_020000.tar'', is_file = True, mtime = 100,
      locked = False, data = ''a''\<rparr>,
     \<lparr>name = ''truenas_config_20240105_020000.tar'', is_file = True, mtime = 500,
      locked = False, data = ''e''\<rparr>,
     \<lparr>name = ''truenas_config_20240102_020000.tar'', is_file = True, mtime = 200,
      locked = False, data = ''b''\<rparr>,
     \<lparr>name = ''truenas_config_20240104_020000.tar'', is_file = True, mtime = 400,
      locked = False, data = ''d''\<rparr>]"

definition example_args :: args where
  "example_args =
    \<lparr>host = ''truenas.local'', out_dir = ''/backups'', api_key = Some ''from-flag'',
     api_key_file = Some ''/etc/truenas.key'', include_secrets = False, no_verify_tls = False,
     retention = 3\<rparr>"

definition example_world :: world where
  "example_world =
    \<lparr>environ_api_key = Some ''from-env'',
     file_read = (\<lambda>p. if p = ''/etc/truenas.key'' then Inr '' from-file ''
                       else Inl (OSError ''FileNotFoundError'')),
     mkdir_error = None,
     core_download = (\<lambda>uri unverified key secretseed.
       if uri = ''wss://truenas.local/api/current'' \<and> key = ''from-flag''
       then Inr (JDict [(''url'', JStr ''/download/1''), (''token'', JStr ''abc'')])
       else Inl (ClientError ''rejected'')),
     requests_get = (\<lambda>url params verify.
       if url = ''https://truenas.local/download/1''
       then Inr \<lparr>status_code = 200, content = ''archive'', body_text = ''archive''\<rparr>
       else Inl (ClientError ''unreachable'')),
     calls = [],
     clock_stamp = ''20240106_020000'',
     clock_mtime = 600,
     write_error = None,
     listing = five_backups,
     stdout = [],
     stderr = []\<rparr>"


text \<open>The same world with an appliance that answers the GET with 403, and with 304.\<close>

definition forbidden_world :: world where
  "forbidden_world = example_world\<lparr>requests_get := (\<lambda>url params verify.
     Inr \<lparr>status_code = 403, content = ''Forbidden'', body_text = ''Forbidden''\<rparr>)\<rparr>"

definition not_modified_world :: world where
  "not_modified_world = example_world\<lparr>requests_get := (\<lambda>url params verify.
     Inr \<lparr>status_code = 304, content = [], body_text = []\<rparr>)\<rparr>"




text \<open>The same world with the second oldest backup held against removal.\<close>

definition one_locked :: "entry list" where
  "one_locked = map (\<lambda>e. if mtime e = 200 then e\<lparr>locked := True\<rparr> else e) five_backups"

definition locked_world :: world where
  "locked_world = example_world\<lparr>listing := one_locked\<rparr>"

section \<open>Strings\<close>

lemma startswith_append [simp]: "startswith (p @ r) p"
  by (simp add: startswith_def)

lemma startswith_split: "startswith s p \<Longrightarrow> s = p @ drop (length p) s"
  by (metis append_take_drop_id startswith_def)

lemma endswith_iff_suffix: "endswith s p \<longleftrightarrow> suffix p s"
proof
  assume "endswith s p"
  then have "s = take (length s - length p) s @ p"
    by (metis append_take_drop_id endswith_def)
  then show "suffix p s"
    by (metis suffixI)
next
  assume "suffix p s"
  then obtain q where "s = q @ p"
    by (auto simp: suffix_def)
  then show "endswith s p"
    by (simp add: endswith_def)
qed

lemma rstrip_append:
  assumes "\<exists>x\<in>set h. x \<noteq> c"
  shows "rstrip c (p @ h) = p @ rstrip c h"
  using assms by (auto simp: rstrip_def dropWhile_append)

lemma rstrip_last:
  assumes "s \<noteq> []" and "last s \<noteq> c"
  shows "rstrip c s = s"
  using assms by (cases s rule: rev_cases) (simp_all add: rstrip_def)

lemma rstrip_no_trailing: "rstrip c s = [] \<or> last (rstrip c s) \<noteq> c"
proof (cases "dropWhile (\<lambda>x. x = c) (rev s)")
  case Nil
  then show ?thesis by (simp add: rstrip_def)
next
  case (Cons y ys)
  then have "y \<noteq> c"
    by (metis (mono_tags, lifting) hd_dropWhile list.distinct(1) list.sel(1))
  with Cons show ?thesis by (simp add: rstrip_def)
qed

section \<open>The control-channel address\<close>

lemma build_ws_base_ws:
  assumes "strip host' = ''ws://'' @ h" and "\<exists>x\<in>set h. x \<noteq> CHR ''/''"
  shows "build_ws_base host' = ''ws://'' @ rstrip CHR ''/'' h"
  using assms(1) rstrip_append[OF assms(2), of "''ws://''"]
  by (simp add: build_ws_base_def startswith_def)

lemma build_ws_base_wss:
  assumes "strip host' = ''wss://'' @ h" and "\<exists>x\<in>set h. x \<noteq> CHR ''/''"
  shows "build_ws_base host' = ''wss://'' @ rstrip CHR ''/'' h"
  using assms(1) rstrip_append[OF assms(2), of "''wss://''"]
  by (simp add: build_ws_base_def startswith_def)

lemma build_ws_base_http:
  assumes "strip host' = ''http://'' @ h"
  shows "build_ws_base host' = ''ws://'' @ rstrip CHR ''/'' h"
  using assms by (simp add: build_ws_base_def startswith_def)

lemma build_ws_base_https:
  assumes "strip host' = ''https://'' @ h"
  shows "build_ws_base host' = ''wss://'' @ rstrip CHR ''/'' h"
  using assms by (simp add: build_ws_base_def startswith_def)

lemma build_ws_base_bare:
  assumes "\<not> startswith (strip host') ''ws://''" and "\<not> startswith (strip host') ''wss://''"
    and "\<not> startswith (strip host') ''http://''" and "\<not> startswith (strip host') ''https://''"
  shows "build_ws_base host' = ''wss://'' @ strip host'"
  using assms by (simp add: build_ws_base_def)

lemma ws_api_url_endswith: "endswith (ws_api_url host') ''/api/current''"
  by (simp add: ws_api_url_def Let_def endswith_iff_suffix suffix_def)

text \<open>
  Exchanging one scheme for another keeps the path suffix: the two overlap in the final
  slash of the scheme at most.
\<close>

lemma suffix_scheme_swap:
  assumes "suffix ''/api/current'' (p @ r)" and "suffix ''/'' p" and "suffix ''/'' q"
    and "set (suffixes p) \<inter> set (prefixes ''/api/current'') \<subseteq> {[], ''/''}"
  shows "suffix ''/api/current'' (q @ r)"
proof -
  from assms(1) consider "suffix ''/api/current'' r"
    | x where "''/api/current'' = x @ r" "suffix x p"
    by (auto simp: suffix_append)
  then show ?thesis
  proof cases
    case 1
    then show ?thesis by (simp add: suffix_append)
  next
    case 2
    then have "prefix x ''/api/current''"
      by (metis prefixI)
    with 2 assms(4) have "x = [] \<or> x = ''/''"
      by (auto simp: in_set_suffixes in_set_prefixes)
    then show ?thesis
    proof
      assume "x = []"
      with 2 show ?thesis by (simp add: suffix_append)
    next
      assume x: "x = ''/''"
      from assms(3) obtain q' where "q = q' @ ''/''"
        by (auto simp: suffix_def)
      with 2 x show ?thesis
        by (metis append.assoc suffixI)
    qed
  qed
qed

lemma build_ws_base_keeps_suffix:
  assumes "endswith (strip host') ''/api/current''"
  shows "endswith (build_ws_base host') ''/api/current''"
proof -
  define s where "s = strip host'"
  from assms have suf: "suffix ''/api/current'' s"
    by (simp add: endswith_iff_suffix s_def)
  then obtain z where z: "s = z @ ''/api/current''"
    by (auto simp: suffix_def)
  then have ne: "s \<noteq> []" and lst: "last s \<noteq> CHR ''/''"
    by simp_all
  consider (ws) "startswith s ''ws://'' \<or> startswith s ''wss://''"
    | (http) "\<not> (startswith s ''ws://'' \<or> startswith s ''wss://'')" "startswith s ''http://''"
    | (https) "\<not> (startswith s ''ws://'' \<or> startswith s ''wss://'')" "\<not> startswith s ''http://''"
        "startswith s ''https://''"
    | (bare) "\<not> (startswith s ''ws://'' \<or> startswith s ''wss://'')" "\<not> startswith s ''http://''"
        "\<not> startswith s ''https://''"
    by blast
  then have "suffix ''/api/current'' (build_ws_base host')"
  proof cases
    case ws
    then have "build_ws_base host' = rstrip CHR ''/'' s"
      by (simp add: build_ws_base_def s_def)
    with rstrip_last[OF ne lst] suf show ?thesis by simp
  next
    case http
    define r where "r = drop (length ''http://'') s"
    from http(2) have s: "s = ''http://'' @ r"
      unfolding r_def by (rule startswith_split)
    with z have "r \<noteq> []" by auto
    with s lst have "last r \<noteq> CHR ''/''" by simp
    with \<open>r \<noteq> []\<close> have "rstrip CHR ''/'' r = r" by (rule rstrip_last)
    with http have b: "build_ws_base host' = ''ws://'' @ r"
      by (simp add: build_ws_base_def s_def[symmetric] r_def)
    have "suffix ''/api/current'' (''ws://'' @ r)"
      by (rule suffix_scheme_swap[of "''http://''"])
        (use suf s in \<open>simp_all add: suffixes_eq_snoc suffix_to_prefix\<close>)
    with b show ?thesis by simp
  next
    case https
    define r where "r = drop (length ''https://'') s"
    from https(3) have s: "s = ''https://'' @ r"
      unfolding r_def by (rule startswith_split)
    with z have "r \<noteq> []" by auto
    with s lst have "last r \<noteq> CHR ''/''" by simp
    with \<open>r \<noteq> []\<close> have "rstrip CHR ''/'' r = r" by (rule rstrip_last)
    with https have b: "build_ws_base host' = ''wss://'' @ r"
      by (simp add: build_ws_base_def s_def[symmetric] r_def)
    have "suffix ''/api/current'' (''wss://'' @ r)"
      by (rule suffix_scheme_swap[of "''https://''"])
        (use suf s in \<open>simp_all add: suffixes_eq_snoc suffix_to_prefix\<close>)
    with b show ?thesis by simp
  next
    case bare
    then have "build_ws_base host' = ''wss://'' @ s"
      by (simp add: build_ws_base_def s_def)
    with suffix_appendI[OF suf, of "''wss://''"] show ?thesis by simp
  qed
  then show ?thesis by (simp add: endswith_iff_suffix)
qed

text \<open>
  C1. Let \<open>s\<close> be the host argument without its surrounding white space. The base address
  is \<open>ws://\<close> resp. \<open>wss://\<close> followed by \<open>h\<close> without its trailing slashes when \<open>s\<close> is
  \<open>http://h\<close> resp. \<open>https://h\<close>; it is \<open>s\<close> itself without its trailing slashes, scheme
  unchanged, when \<open>s\<close> is \<open>ws://h\<close> or \<open>wss://h\<close> and \<open>h\<close> names a host (it has a character
  other than the slash); it is \<open>wss://\<close> followed by \<open>s\<close> when \<open>s\<close> has none of the four
  schemes. The control-channel address always ends with \<open>/api/current\<close>: it is the base
  address when that ends with the suffix already, which is so whenever \<open>s\<close> ends with it, and
  the base address with the suffix appended once otherwise.
\<close>

theorem ws_api_url_normalizes:
  "(strip host' = ''ws://'' @ h \<and> (\<exists>x\<in>set h. x \<noteq> CHR ''/'') \<longrightarrow>
      build_ws_base host' = ''ws://'' @ rstrip CHR ''/'' h) \<and>
   (strip host' = ''wss://'' @ h \<and> (\<exists>x\<in>set h. x \<noteq> CHR ''/'') \<longrightarrow>
      build_ws_base host' = ''wss://'' @ rstrip CHR ''/'' h) \<and>
   (strip host' = ''http://'' @ h \<longrightarrow> build_ws_base host' = ''ws://'' @ rstrip CHR ''/'' h) \<and>
   (strip host' = ''https://'' @ h \<longrightarrow> build_ws_base host' = ''wss://'' @ rstrip CHR ''/'' h) \<and>
   (\<not> startswith (strip host') ''ws://'' \<and> \<not> startswith (strip host') ''wss://'' \<and>
    \<not> startswith (strip host') ''http://'' \<and> \<not> startswith (strip host') ''https://'' \<longrightarrow>
      build_ws_base host' = ''wss://'' @ strip host') \<and>
   endswith (ws_api_url host') ''/api/current'' \<and>
   (endswith (build_ws_base host') ''/api/current'' \<longrightarrow> ws_api_url host' = build_ws_base host') \<and>
   (\<not> endswith (build_ws_base host') ''/api/current'' \<longrightarrow>
      ws_api_url host' = build_ws_base host' @ ''/api/current'') \<and>
   (endswith (strip host') ''/api/current'' \<longrightarrow> ws_api_url host' = build_ws_base host')"
proof -
  have "endswith (strip host') ''/api/current'' \<longrightarrow> ws_api_url host' = build_ws_base host'"
    using build_ws_base_keeps_suffix[of host'] by (simp add: ws_api_url_def)
  moreover have "endswith (build_ws_base host') ''/api/current'' \<longrightarrow>
      ws_api_url host' = build_ws_base host'"
    by (simp add: ws_api_url_def)
  moreover have "\<not> endswith (build_ws_base host') ''/api/current'' \<longrightarrow>
      ws_api_url host' = build_ws_base host' @ ''/api/current''"
    by (simp add: ws_api_url_def)
  ultimately show ?thesis
    using build_ws_base_ws[of host' h] build_ws_base_wss[of host' h] build_ws_base_http[of host' h]
      build_ws_base_https[of host' h] build_ws_base_bare[of host'] ws_api_url_endswith[of host']
    by blast
qed

theorem ws_api_url_normalizes_witness:
  "ws_api_url ''127.0.0.1'' = ''wss://127.0.0.1/api/current'' \<and>
   ws_api_url ''http://h'' = ''ws://h/api/current'' \<and>
   ws_api_url ''https://h/'' = ''wss://h/api/current'' \<and>
   ws_api_url ''ws://h'' = ''ws://h/api/current'' \<and>
   ws_api_url ''wss://h/api/current'' = ''wss://h/api/current''"
proof -
  have s: "strip ''127.0.0.1'' = ''127.0.0.1''" "strip ''http://h'' = ''http://'' @ ''h''"
    "strip ''https://h/'' = ''https://'' @ ''h/''" "strip ''ws://h'' = ''ws://'' @ ''h''"
    "strip ''wss://h/api/current'' = ''wss://'' @ ''h/api/current''"
    by (simp_all add: strip_def is_space_def)
  have r: "rstrip CHR ''/'' ''h'' = ''h''" "rstrip CHR ''/'' ''h/'' = ''h''"
    "rstrip CHR ''/'' ''h/api/current'' = ''h/api/current''"
    by (simp_all add: rstrip_def)
  have "build_ws_base ''127.0.0.1'' = ''wss://127.0.0.1''"
    using ws_api_url_normalizes[of "''127.0.0.1''" "[]"] s(1) by (simp add: startswith_def)
  moreover have "build_ws_base ''http://h'' = ''ws://h''"
    using ws_api_url_normalizes[of "''http://h''" "''h''"] s(2) r by simp
  moreover have "build_ws_base ''https://h/'' = ''wss://h''"
    using ws_api_url_normalizes[of "''https://h/''" "''h/''"] s(3) r by simp
  moreover have "build_ws_base ''ws://h'' = ''ws://h''"
    using ws_api_url_normalizes[of "''ws://h''" "''h''"] s(4) r by simp
  moreover have "build_ws_base ''wss://h/api/current'' = ''wss://h/api/current''"
    using ws_api_url_normalizes[of "''wss://h/api/current''" "''h/api/current''"] s(5) r by simp
  ultimately show ?thesis
    using ws_api_url_normalizes[of "''127.0.0.1''" "[]"] ws_api_url_normalizes[of "''http://h''" "[]"]
      ws_api_url_normalizes[of "''https://h/''" "[]"] ws_api_url_normalizes[of "''ws://h''" "[]"]
      ws_api_url_normalizes[of "''wss://h/api/current''" "[]"]
    by (simp add: endswith_def)
qed

section \<open>The reply of the download call\<close>

lemma parse_download_reply_dict:
  "parse_download_reply (JDict d) =
    (case find truthy [dict_get d ''url'', dict_get d ''result'', dict_get d ''job_url''] of
       None \<Rightarrow> Inl (RuntimeError No_download_URL)
     | Some u \<Rightarrow>
         Inr (u, case find truthy [dict_get d ''token'', dict_get d ''auth_token''] of
                   None \<Rightarrow> JStr []
                 | Some t \<Rightarrow> t))"
  by (simp add: parse_download_reply_def py_or_def)

lemma parse_download_reply_list:
  assumes "2 \<le> length xs"
  shows "parse_download_reply (JList xs) =
    (if truthy (xs ! 1)
     then Inr (xs ! 1, if 3 \<le> length xs \<and> truthy (xs ! 2) then xs ! 2 else JStr [])
     else Inl (RuntimeError No_download_URL))"
  using assms by (simp add: parse_download_reply_def py_or_def)

lemma parse_download_reply_other:
  assumes "\<forall>d. r \<noteq> JDict d" and "\<forall>xs. r = JList xs \<longrightarrow> length xs < 2"
  shows "parse_download_reply r = Inl (RuntimeError (Unexpected_response r))"
  using assms by (cases r) (simp_all add: parse_download_reply_def)

text \<open>
  C2, as the code has it. For a mapping the download address is the first truthy value
  among those of the keys \<open>url\<close>, \<open>result\<close> and \<open>job_url\<close> (an absent key, \<^verbatim>\<open>null\<close>, an empty
  string, zero, \<^verbatim>\<open>false\<close> and an empty list or mapping are passed over), and the token the
  first truthy value among those of \<open>token\<close> and \<open>auth_token\<close>. For a sequence of at least two
  elements the address is element 1 and the token element 2. A token that is missing or not
  truthy becomes the empty string. Without a truthy address the parser raises
  \<^verbatim>\<open>RuntimeError\<close>, as it does for every other shape of reply. The two replies of the
  specification give the pairs it names.
\<close>

theorem parse_download_reply_shapes:
  "parse_download_reply (JDict d) =
    (case find truthy [dict_get d ''url'', dict_get d ''result'', dict_get d ''job_url''] of
       None \<Rightarrow> Inl (RuntimeError No_download_URL)
     | Some u \<Rightarrow>
         Inr (u, case find truthy [dict_get d ''token'', dict_get d ''auth_token''] of
                   None \<Rightarrow> JStr []
                 | Some t \<Rightarrow> t)) \<and>
   (2 \<le> length xs \<longrightarrow>
      parse_download_reply (JList xs) =
        (if truthy (xs ! 1)
         then Inr (xs ! 1, if 3 \<le> length xs \<and> truthy (xs ! 2) then xs ! 2 else JStr [])
         else Inl (RuntimeError No_download_URL))) \<and>
   ((\<forall>d'. r \<noteq> JDict d') \<and> (\<forall>ys. r = JList ys \<longrightarrow> length ys < 2) \<longrightarrow>
      parse_download_reply r = Inl (RuntimeError (Unexpected_response r))) \<and>
   parse_download_reply (JDict [(''url'', JStr ''/download/1''), (''token'', JStr ''abc'')]) =
     Inr (JStr ''/download/1'', JStr ''abc'') \<and>
   parse_download_reply (JList [JStr ''ok'', JStr ''/download/2'']) =
     Inr (JStr ''/download/2'', JStr [])"
proof -
  have "parse_download_reply (JDict [(''url'', JStr ''/download/1''), (''token'', JStr ''abc'')]) =
      Inr (JStr ''/download/1'', JStr ''abc'')"
    by (simp add: parse_download_reply_dict dict_get_def)
  moreover have "parse_download_reply (JList [JStr ''ok'', JStr ''/download/2'']) =
      Inr (JStr ''/download/2'', JStr [])"
    by (simp add: parse_download_reply_list)
  ultimately show ?thesis
    using parse_download_reply_dict[of d] parse_download_reply_list[of xs]
      parse_download_reply_other[of r]
    by blast
qed

theorem parse_download_reply_shapes_witness:
  "parse_download_reply (JList [JStr ''ok'', JStr ''/download/2'', JNull]) =
     Inr (JStr ''/download/2'', JStr []) \<and>
   parse_download_reply (JList [JStr ''ok'', JInt 0]) = Inl (RuntimeError No_download_URL) \<and>
   parse_download_reply (JStr ''ok'') = Inl (RuntimeError (Unexpected_response (JStr ''ok''))) \<and>
   parse_download_reply (JList [JStr ''ok'']) =
     Inl (RuntimeError (Unexpected_response (JList [JStr ''ok''])))"
  using parse_download_reply_shapes[of "[]" "[JStr ''ok'', JStr ''/download/2'', JNull]" "JStr ''ok''"]
    parse_download_reply_shapes[of "[]" "[JStr ''ok'', JInt 0]" "JList [JStr ''ok'']"]
  by simp

text \<open>
  The claim reads ``the first present value'': here the key \<open>url\<close> is present and holds the
  empty string, and the address returned is the value of \<open>result\<close>.
\<close>

theorem parse_download_reply_first_present_counterexample:
  "claimed_first_present [(''url'', JStr []), (''result'', JStr ''/download/9'')]
      [''url'', ''result'', ''job_url''] = Some (JStr []) \<and>
   parse_download_reply (JDict [(''url'', JStr []), (''result'', JStr ''/download/9'')]) =
     Inr (JStr ''/download/9'', JStr [])"
  by (simp add: claimed_first_present_def parse_download_reply_def py_or_def dict_get_def)

section \<open>The address that is fetched\<close>

lemma build_http_base_http:
  assumes "strip host' = ''http://'' @ h" and "\<exists>x\<in>set h. x \<noteq> CHR ''/''"
  shows "build_http_base host' = ''http://'' @ rstrip CHR ''/'' h"
  using assms(1) rstrip_append[OF assms(2), of "''http://''"]
  by (simp add: build_http_base_def startswith_def)

lemma build_http_base_https:
  assumes "strip host' = ''https://'' @ h" and "\<exists>x\<in>set h. x \<noteq> CHR ''/''"
  shows "build_http_base host' = ''https://'' @ rstrip CHR ''/'' h"
  using assms(1) rstrip_append[OF assms(2), of "''https://''"]
  by (simp add: build_http_base_def startswith_def)

lemma build_http_base_ws:
  assumes "strip host' = ''ws://'' @ h"
  shows "build_http_base host' = ''http://'' @ rstrip CHR ''/'' h"
  using assms by (simp add: build_http_base_def startswith_def)

lemma build_http_base_wss:
  assumes "strip host' = ''wss://'' @ h"
  shows "build_http_base host' = ''https://'' @ rstrip CHR ''/'' h"
  using assms by (simp add: build_http_base_def startswith_def)

lemma build_http_base_bare:
  assumes "\<not> startswith (strip host') ''ws://''" and "\<not> startswith (strip host') ''wss://''"
    and "\<not> startswith (strip host') ''http://''" and "\<not> startswith (strip host') ''https://''"
  shows "build_http_base host' = ''https://'' @ strip host'"
  using assms by (simp add: build_http_base_def)

text \<open>
  How the address is resolved. An address that starts with \<open>http://\<close> or \<open>https://\<close>
  is fetched as it is, every other one behind the base address. The base address of
  \<open>ws://h\<close> and \<open>wss://h\<close> is \<open>http://\<close> and \<open>https://\<close> followed by \<open>h\<close> without its
  trailing slashes; that of \<open>http://h\<close> and \<open>https://h\<close>, where \<open>h\<close> has a character other
  than the slash, is the input without its trailing slashes; that of an input \<open>s\<close> with none
  of the four schemes is \<open>https://\<close> followed by \<open>s\<close>, as it stands.
\<close>

theorem full_url_resolves:
  "(startswith u ''http://'' \<or> startswith u ''https://'' \<longrightarrow> full_url host' u = u) \<and>
   (\<not> startswith u ''http://'' \<and> \<not> startswith u ''https://'' \<longrightarrow>
      full_url host' u = build_http_base host' @ u) \<and>
   (strip host' = ''ws://'' @ h \<longrightarrow> build_http_base host' = ''http://'' @ rstrip CHR ''/'' h) \<and>
   (strip host' = ''wss://'' @ h \<longrightarrow> build_http_base host' = ''https://'' @ rstrip CHR ''/'' h) \<and>
   (strip host' = ''http://'' @ h \<and> (\<exists>x\<in>set h. x \<noteq> CHR ''/'') \<longrightarrow>
      build_http_base host' = ''http://'' @ rstrip CHR ''/'' h) \<and>
   (strip host' = ''https://'' @ h \<and> (\<exists>x\<in>set h. x \<noteq> CHR ''/'') \<longrightarrow>
      build_http_base host' = ''https://'' @ rstrip CHR ''/'' h) \<and>
   (\<not> startswith (strip host') ''ws://'' \<and> \<not> startswith (strip host') ''wss://'' \<and>
    \<not> startswith (strip host') ''http://'' \<and> \<not> startswith (strip host') ''https://'' \<longrightarrow>
      build_http_base host' = ''https://'' @ strip host') \<and>
   (rstrip CHR ''/'' h = [] \<or> last (rstrip CHR ''/'' h) \<noteq> CHR ''/'') \<and>
   full_url ''truenas.local'' ''/download/1'' = ''https://truenas.local/download/1''"
proof -
  have "full_url ''truenas.local'' ''/download/1'' = ''https://truenas.local/download/1''"
    by (simp add: full_url_def http_api_base_def build_http_base_def startswith_def strip_def
        is_space_def)
  moreover have "startswith u ''http://'' \<or> startswith u ''https://'' \<longrightarrow> full_url host' u = u"
    by (simp add: full_url_def)
  moreover have "\<not> startswith u ''http://'' \<and> \<not> startswith u ''https://'' \<longrightarrow>
      full_url host' u = build_http_base host' @ u"
    by (simp add: full_url_def http_api_base_def)
  ultimately show ?thesis
    using build_http_base_ws[of host' h] build_http_base_wss[of host' h]
      build_http_base_http[of host' h] build_http_base_https[of host' h]
      build_http_base_bare[of host'] rstrip_no_trailing[of "CHR ''/''" h]
    by blast
qed

theorem full_url_resolves_witness:
  "full_url ''ws://nas/'' ''/download/1'' = ''http://nas/download/1'' \<and>
   full_url ''https://nas//'' ''/download/1'' = ''https://nas/download/1'' \<and>
   full_url ''nas'' ''https://other/file'' = ''https://other/file''"
proof -
  have s: "strip ''ws://nas/'' = ''ws://'' @ ''nas/''" "strip ''https://nas//'' = ''https://'' @ ''nas//''"
    by (simp_all add: strip_def is_space_def)
  have r: "rstrip CHR ''/'' ''nas/'' = ''nas''" "rstrip CHR ''/'' ''nas//'' = ''nas''"
    by (simp_all add: rstrip_def)
  have "build_http_base ''ws://nas/'' = ''http://nas''"
    using full_url_resolves[of "[]" "''ws://nas/''" "''nas/''"] s r by simp
  moreover have "build_http_base ''https://nas//'' = ''https://nas''"
    using full_url_resolves[of "[]" "''https://nas//''" "''nas//''"] s r by simp
  ultimately show ?thesis
    using full_url_resolves[of "''/download/1''" "''ws://nas/''" "[]"]
      full_url_resolves[of "''/download/1''" "''https://nas//''" "[]"]
      full_url_resolves[of "''https://other/file''" "''nas''" "[]"]
    by (simp add: startswith_def)
qed

text \<open>
  C4. A host given without a scheme keeps its trailing slash, which the three other branches
  of \<^verbatim>\<open>build_http_base\<close> remove: the relative address \<open>/download/1\<close> is then fetched
  behind two slashes.
\<close>

theorem full_url_bare_host_trailing_slash:
  "build_http_base ''truenas.local/'' = ''https://truenas.local/'' \<and>
   build_http_base ''https://truenas.local/'' = ''https://truenas.local'' \<and>
   full_url ''truenas.local/'' ''/download/1'' = ''https://truenas.local//download/1''"
  by (simp add: full_url_def http_api_base_def build_http_base_def startswith_def strip_def
      rstrip_def is_space_def)

section \<open>Where the key comes from\<close>

lemma read_api_key_explicit:
  assumes "k \<noteq> []"
  shows "read_api_key w (Some k) f = Inr (Some (strip k))"
  using assms by (simp add: read_api_key_def str_truthy_def)

lemma read_api_key_file:
  assumes "\<not> str_truthy k" and "p \<noteq> []"
  shows "read_api_key w k (Some p) =
    (case file_read w p of Inl e \<Rightarrow> Inl e | Inr c \<Rightarrow> Inr (Some (strip c)))"
  using assms by (simp add: read_api_key_def str_truthy_def)

lemma read_api_key_environ:
  assumes "\<not> str_truthy k" and "\<not> str_truthy f" and "environ_api_key w = Some v" and "v \<noteq> []"
  shows "read_api_key w k f = Inr (Some (strip v))"
  using assms by (simp add: read_api_key_def str_truthy_def)

lemma read_api_key_none:
  assumes "\<not> str_truthy k" and "\<not> str_truthy f" and "\<not> str_truthy (environ_api_key w)"
  shows "read_api_key w k f = Inr None"
  using assms by (simp add: read_api_key_def)

text \<open>
  C6. A source is set when it is given and not empty. The key is the stripped value of the
  flag \<open>--api-key\<close> when that is set, whatever the two other sources hold; otherwise the
  stripped contents of the key file when \<open>--api-key-file\<close> is set (and the exception of
  reading it, should that fail); otherwise the stripped value of the environment variable
  when that is set; otherwise there is no key.
\<close>

theorem read_api_key_priority:
  "(k \<noteq> [] \<longrightarrow> read_api_key w (Some k) f = Inr (Some (strip k))) \<and>
   (\<not> str_truthy e \<and> p \<noteq> [] \<and> file_read w p = Inr c \<longrightarrow>
      read_api_key w e (Some p) = Inr (Some (strip c))) \<and>
   (\<not> str_truthy e \<and> p \<noteq> [] \<and> file_read w p = Inl x \<longrightarrow> read_api_key w e (Some p) = Inl x) \<and>
   (\<not> str_truthy e \<and> \<not> str_truthy f \<and> environ_api_key w = Some v \<and> v \<noteq> [] \<longrightarrow>
      read_api_key w e f = Inr (Some (strip v))) \<and>
   (\<not> str_truthy e \<and> \<not> str_truthy f \<and> \<not> str_truthy (environ_api_key w) \<longrightarrow>
      read_api_key w e f = Inr None)"
  using read_api_key_explicit[of k w f] read_api_key_file[of e p w]
    read_api_key_environ[of e f w v] read_api_key_none[of e f w]
  by simp

theorem read_api_key_priority_witness:
  "read_api_key example_world (Some ''from-flag'') (Some ''/etc/truenas.key'') =
     Inr (Some ''from-flag'') \<and>
   read_api_key example_world None (Some ''/etc/truenas.key'') = Inr (Some ''from-file'') \<and>
   read_api_key example_world None (Some ''/missing'') = Inl (OSError ''FileNotFoundError'') \<and>
   read_api_key example_world None None = Inr (Some ''from-env'') \<and>
   read_api_key (example_world\<lparr>environ_api_key := None\<rparr>) None (Some []) = Inr None"
proof -
  have s: "strip ''from-flag'' = ''from-flag''" "strip '' from-file '' = ''from-file''"
    "strip ''from-env'' = ''from-env''"
    by (simp_all add: strip_def is_space_def)
  have f: "file_read example_world ''/etc/truenas.key'' = Inr '' from-file ''"
    "file_read example_world ''/missing'' = Inl (OSError ''FileNotFoundError'')"
    "environ_api_key example_world = Some ''from-env''"
    by (simp_all add: example_world_def)
  show ?thesis
    using read_api_key_priority[where k = "''from-flag''" and w = example_world
        and f = "Some ''/etc/truenas.key''" and e = None and p = "''/etc/truenas.key''"
        and c = "'' from-file ''" and x = "OSError ''FileNotFoundError''" and v = "''from-env''"]
      read_api_key_priority[where k = "''from-flag''" and w = example_world
        and f = None and e = None and p = "''/missing''"
        and c = "[]" and x = "OSError ''FileNotFoundError''" and v = "''from-env''"]
      read_api_key_priority[where k = "''from-flag''"
        and w = "example_world\<lparr>environ_api_key := None\<rparr>"
        and f = "Some []" and e = None and p = "''/missing''"
        and c = "[]" and x = "OSError ''FileNotFoundError''" and v = "[]"]
      s f
    by (simp add: str_truthy_def)
qed

section \<open>A run without a key\<close>





section \<open>Pruning\<close>

text \<open>An \<^verbatim>\<open>unlink\<close> whose exception is discarded removes the entry of that name unless it is held.\<close>

lemma unlink_swallowed:
  assumes "distinct (map name dir)"
  shows "(case unlink dir n of Inl _ \<Rightarrow> dir | Inr dir' \<Rightarrow> dir') =
    filter (\<lambda>e. \<not> (name e = n \<and> \<not> locked e)) dir"
proof (cases "find (\<lambda>e. name e = n) dir")
  case None
  then have "\<forall>e\<in>set dir. name e \<noteq> n"
    by (auto simp: find_None_iff)
  then have "filter (\<lambda>e. \<not> (name e = n \<and> \<not> locked e)) dir = dir"
    by (simp add: filter_id_conv)
  with None show ?thesis
    by (simp add: unlink_def)
next
  case (Some e)
  then have e: "e \<in> set dir" "name e = n"
    by (auto simp: find_Some_iff)
  from assms have "inj_on name (set dir)"
    by (simp add: distinct_map)
  with e have only: "\<forall>x\<in>set dir. name x = n \<longrightarrow> x = e"
    by (auto dest: inj_onD)
  show ?thesis
  proof (cases "locked e")
    case True
    with only have "filter (\<lambda>e. \<not> (name e = n \<and> \<not> locked e)) dir = dir"
      by (auto simp: filter_id_conv)
    with Some True show ?thesis
      by (simp add: unlink_def)
  next
    case False
    have "filter (\<lambda>x. name x \<noteq> n) dir = filter (\<lambda>e. \<not> (name e = n \<and> \<not> locked e)) dir"
      by (rule filter_cong) (use only False in auto)
    with Some False show ?thesis
      by (simp add: unlink_def)
  qed
qed

text \<open>The loop calls \<^verbatim>\<open>unlink\<close> on every file it is given, whatever the earlier calls met.\<close>

lemma unlink_each_tried: "snd (unlink_each dir olds) = map name olds"
  by (induction olds arbitrary: dir) (simp_all add: case_prod_beta)

lemma unlink_each_filter:
  assumes "distinct (map name dir)"
  shows "fst (unlink_each dir olds) =
    filter (\<lambda>e. \<not> (name e \<in> name ` set olds \<and> \<not> locked e)) dir"
  using assms
proof (induction olds arbitrary: dir)
  case Nil
  then show ?case by simp
next
  case (Cons old olds)
  let ?dir = "filter (\<lambda>e. \<not> (name e = name old \<and> \<not> locked e)) dir"
  from Cons.prems have "distinct (map name ?dir)"
    by (rule distinct_map_filter)
  then have "fst (unlink_each ?dir olds) =
      filter (\<lambda>e. \<not> (name e \<in> name ` set olds \<and> \<not> locked e)) ?dir"
    by (rule Cons.IH)
  also have "\<dots> = filter (\<lambda>e. \<not> (name e \<in> name ` set (old # olds) \<and> \<not> locked e)) dir"
    by (auto intro: filter_cong)
  finally show ?case
    by (simp add: unlink_swallowed[OF Cons.prems] case_prod_beta)
qed

lemma enforce_retention_tried:
  assumes "0 < N"
  shows "snd (enforce_retention dir N) = map name (drop (nat N) (backup_files dir))"
  using assms by (simp add: enforce_retention_def unlink_each_tried)


lemma set_backup_files:
  "set (backup_files dir) = {e \<in> set dir. glob_match (name e) \<and> is_file e}"
  by (auto simp: backup_files_def matching_files_def)




lemma enforce_retention_filter:
  assumes "distinct (map name dir)" and "0 < N"
  shows "fst (enforce_retention dir N) =
    filter (\<lambda>e. \<not> (e \<in> set (drop (nat N) (backup_files dir)) \<and> \<not> locked e)) dir"
proof -
  let ?olds = "drop (nat N) (backup_files dir)"
  from assms(1) have inj: "inj_on name (set dir)"
    by (simp add: distinct_map)
  have sub: "set ?olds \<subseteq> set dir"
    using set_drop_subset[of "nat N" "backup_files dir"] by (auto simp: set_backup_files)
  have "filter (\<lambda>e. \<not> (name e \<in> name ` set ?olds \<and> \<not> locked e)) dir =
      filter (\<lambda>e. \<not> (e \<in> set ?olds \<and> \<not> locked e)) dir"
  proof (rule filter_cong[OF refl])
    fix e assume "e \<in> set dir"
    with inj sub have "name e \<in> name ` set ?olds \<longleftrightarrow> e \<in> set ?olds"
      by (auto dest: inj_onD)
    then show "(\<not> (name e \<in> name ` set ?olds \<and> \<not> locked e)) = (\<not> (e \<in> set ?olds \<and> \<not> locked e))"
      by simp
  qed
  with assms show ?thesis
    by (simp add: enforce_retention_def unlink_each_filter)
qed




section \<open>The course of a run\<close>

text \<open>The session and the download change nothing of the world but the requests received.\<close>

lemma start_download_session_world:
  "snd (start_download_session w h key s v) =
    w\<lparr>calls := calls w @
      [Session_call (ws_api_url h) (startswith (ws_api_url h) ''wss://'' \<and> \<not> v) key s]\<rparr>"
  by (simp add: start_download_session_def Let_def)


lemma download_file_world:
  "snd (download_file w h (JStr u) tok v) =
    w\<lparr>calls := calls w @
      [Get_call (full_url h u) (if truthy tok then [(''auth_token'', tok)] else []) v]\<rparr>"
  by (simp add: download_file_def Let_def)

lemma download_file_result:
  assumes "requests_get w (full_url h u) (if truthy tok then [(''auth_token'', tok)] else []) v =
    Inr resp"
  shows "fst (download_file w h (JStr u) tok v) =
    (if 400 \<le> status_code resp \<and> status_code resp < 600 then Inl (HTTPError resp)
     else Inr (content resp))"
  using assms by (simp add: download_file_def Let_def raise_for_status_def)


lemma download_file_not_str:
  assumes "\<forall>u. d \<noteq> JStr u"
  shows "download_file w h d tok v = (Inl (AttributeError ''startswith''), w)"
  using assms by (cases d) (simp_all add: download_file_def)

lemma fetch_session_failed:
  assumes "fst (start_download_session w (host a) key (include_secrets a) (\<not> no_verify_tls a)) =
    Inl e"
  shows "fetch a w key =
    (Inl e, snd (start_download_session w (host a) key (include_secrets a) (\<not> no_verify_tls a)))"
  using assms
  by (cases "start_download_session w (host a) key (include_secrets a) (\<not> no_verify_tls a)")
    (simp add: fetch_def)

lemma fetch_session_done:
  assumes "fst (start_download_session w (host a) key (include_secrets a) (\<not> no_verify_tls a)) =
    Inr (d, tok)"
  shows "fetch a w key =
    download_file (snd (start_download_session w (host a) key (include_secrets a) (\<not> no_verify_tls a)))
      (host a) d tok (\<not> no_verify_tls a)"
  using assms
  by (cases "start_download_session w (host a) key (include_secrets a) (\<not> no_verify_tls a)")
    (simp add: fetch_def)

text \<open>
  The requests of one \<^verbatim>\<open>try\<close> block: one session, and after it at most one GET.
\<close>

lemma fetch_world:
  "\<exists>g. snd (fetch a w key) =
      w\<lparr>calls := calls w @
        Session_call (ws_api_url (host a))
          (startswith (ws_api_url (host a)) ''wss://'' \<and> no_verify_tls a) key
          (include_secrets a) # g\<rparr> \<and>
     (g = [] \<or> (\<exists>u p. g = [Get_call u p (\<not> no_verify_tls a)]))"
proof (cases "fst (start_download_session w (host a) key (include_secrets a) (\<not> no_verify_tls a))")
  case (Inl e)
  then show ?thesis
    by (intro exI[of _ "[]"]) (simp add: fetch_session_failed start_download_session_world)
next
  case (Inr r)
  then obtain d tok where r: "r = (d, tok)"
    by (cases r) simp
  show ?thesis
  proof (cases "\<exists>u. d = JStr u")
    case True
    then obtain u where "d = JStr u" ..
    with Inr r show ?thesis
      by (intro exI[of _ "[Get_call (full_url (host a) u)
          (if truthy tok then [(''auth_token'', tok)] else []) (\<not> no_verify_tls a)]"])
        (simp add: fetch_session_done start_download_session_world download_file_world)
  next
    case False
    with Inr r show ?thesis
      by (intro exI[of _ "[]"])
        (simp add: fetch_session_done start_download_session_world download_file_not_str)
  qed
qed

lemma fetch_frame:
  "listing (snd (fetch a w key)) = listing w" "stderr (snd (fetch a w key)) = stderr w"
  "stdout (snd (fetch a w key)) = stdout w" "write_error (snd (fetch a w key)) = write_error w"
  "clock_stamp (snd (fetch a w key)) = clock_stamp w"
  "clock_mtime (snd (fetch a w key)) = clock_mtime w"
  using fetch_world[of a w key] by auto

lemma main_fetch_failed:
  assumes "read_api_key w (api_key a) (api_key_file a) = Inr (Some key)" and "key \<noteq> []"
    and "mkdir_error w = None" and "fst (fetch a w key) = Inl e"
  shows "main a w =
    (Returned 1,
     (snd (fetch a w key))\<lparr>stderr := stderr w @
       [case e of HTTPError r \<Rightarrow> HTTP_error_message (status_code r) (body_text r)
        | _ \<Rightarrow> Error_message e]\<rparr>)"
  using assms fetch_frame(2)[of a w key]
  by (cases e; cases "fetch a w key")
    (simp_all add: main_def str_truthy_def ensure_output_dir_def)



lemma main_written:
  assumes "read_api_key w (api_key a) (api_key_file a) = Inr (Some key)" and "key \<noteq> []"
    and "mkdir_error w = None" and "fst (fetch a w key) = Inr bytes"
    and "write_backup (snd (fetch a w key)) bytes = Inr w'"
  shows "main a w =
    (Returned 0,
     w'\<lparr>stdout := stdout w' @ [Wrote_message (out_name w')],
        listing := fst (enforce_retention (listing w') (retention a))\<rparr>)"
  using assms
  by (cases "fetch a w key") (simp add: main_def str_truthy_def ensure_output_dir_def)






text \<open>
  C8. \<^verbatim>\<open>unlink\<close> is called on every file picked for removal, whatever the calls before it
  met. Among these files, one whose removal is refused stays and every other one goes,
  whichever of them are refused and wherever they stand in the pass; no entry that was not
  picked is lost. A run that got as far as writing the backup returns 0 and prints
  nothing on the error stream, whatever the pruning met.
\<close>

theorem unlink_failures_are_swallowed:
  "(0 < N \<longrightarrow> snd (enforce_retention dir N) = map name (drop (nat N) (backup_files dir))) \<and>
   (0 < N \<and> distinct (map name dir) \<longrightarrow>
      (\<forall>d\<in>set (drop (nat N) (backup_files dir)).
         (locked d \<longrightarrow> d \<in> set (fst (enforce_retention dir N))) \<and>
         (\<not> locked d \<longrightarrow> d \<notin> set (fst (enforce_retention dir N)))) \<and>
      (\<forall>e\<in>set dir. e \<notin> set (drop (nat N) (backup_files dir)) \<longrightarrow>
         e \<in> set (fst (enforce_retention dir N)))) \<and>
   (read_api_key w (api_key a) (api_key_file a) = Inr (Some key) \<and> key \<noteq> [] \<and>
    mkdir_error w = None \<and> fst (fetch a w key) = Inr bytes \<and>
    write_backup (snd (fetch a w key)) bytes = Inr w' \<longrightarrow>
      fst (main a w) = Returned 0 \<and>
      listing (snd (main a w)) = fst (enforce_retention (listing w') (retention a)) \<and>
      stderr (snd (main a w)) = stderr w)"
proof -
  have "(\<forall>d\<in>set (drop (nat N) (backup_files dir)).
         (locked d \<longrightarrow> d \<in> set (fst (enforce_retention dir N))) \<and>
         (\<not> locked d \<longrightarrow> d \<notin> set (fst (enforce_retention dir N)))) \<and>
      (\<forall>e\<in>set dir. e \<notin> set (drop (nat N) (backup_files dir)) \<longrightarrow>
         e \<in> set (fst (enforce_retention dir N)))"
    if h: "0 < N" "distinct (map name dir)"
  proof -
    have "set (drop (nat N) (backup_files dir)) \<subseteq> set dir"
      using set_drop_subset[of "nat N" "backup_files dir"] by (auto simp: set_backup_files)
    then show ?thesis
      by (auto simp: enforce_retention_filter[OF h(2) h(1)])
  qed
  moreover have "fst (main a w) = Returned 0 \<and>
      listing (snd (main a w)) = fst (enforce_retention (listing w') (retention a)) \<and>
      stderr (snd (main a w)) = stderr w"
    if h: "read_api_key w (api_key a) (api_key_file a) = Inr (Some key)" "key \<noteq> []"
      "mkdir_error w = None" "fst (fetch a w key) = Inr bytes"
      "write_backup (snd (fetch a w key)) bytes = Inr w'"
  proof -
    from h(5) have "stderr w' = stderr (snd (fetch a w key))"
      by (auto simp: write_backup_def split: option.splits if_splits)
    then show ?thesis
      using main_written[OF h] by (simp add: fetch_frame)
  qed
  ultimately show ?thesis
    using enforce_retention_tried[of N dir] by blast
qed

theorem unlink_failures_are_swallowed_witness:
  "(0::int) < 3 \<and> distinct (map name one_locked) \<and>
   map mtime (drop (nat 3) (backup_files one_locked)) = [200, 100] \<and>
   map locked (drop (nat 3) (backup_files one_locked)) = [True, False] \<and>
   map mtime (fst (enforce_retention one_locked 3)) = [300, 500, 200, 400] \<and>
   snd (enforce_retention one_locked 3) =
     [''truenas_config_20240102_020000.tar'', ''truenas_config_20240101_020000.tar''] \<and>
   fst (main example_args locked_world) = Returned 0 \<and>
   stderr (snd (main example_args locked_world)) = []"
proof -
  have k: "read_api_key locked_world (api_key example_args) (api_key_file example_args) =
      Inr (Some ''from-flag'')" "''from-flag'' \<noteq> []" "mkdir_error locked_world = None"
    "stderr locked_world = []"
    by code_simp+
  have f: "fst (fetch example_args locked_world ''from-flag'') = Inr ''archive''"
    by code_simp
  obtain w' where w': "write_backup (snd (fetch example_args locked_world ''from-flag''))
      ''archive'' = Inr w'"
    by (cases "write_backup (snd (fetch example_args locked_world ''from-flag'')) ''archive''")
      (simp_all add: write_backup_def fetch_frame locked_world_def example_world_def one_locked_def
        five_backups_def out_name_def)
  have d: "distinct (map name one_locked)"
    "map mtime (drop (nat 3) (backup_files one_locked)) = [200, 100]"
    "map locked (drop (nat 3) (backup_files one_locked)) = [True, False]"
    "map mtime (fst (enforce_retention one_locked 3)) = [300, 500, 200, 400]"
    "map name (drop (nat 3) (backup_files one_locked)) =
      [''truenas_config_20240102_020000.tar'', ''truenas_config_20240101_020000.tar'']"
    by code_simp+
  show ?thesis
    using unlink_failures_are_swallowed[where N = 3 and dir = one_locked and w = locked_world
        and a = example_args and key = "''from-flag''" and bytes = "''archive''" and w' = w']
      k f w' d
    by simp
qed

section \<open>How many backups a run leaves\<close>




section \<open>Failures of a run\<close>

lemma fetch_http_failed:
  assumes "fst (start_download_session w (host a) key (include_secrets a) (\<not> no_verify_tls a)) =
      Inr (JStr u, tok)"
    and "requests_get w (full_url (host a) u) (if truthy tok then [(''auth_token'', tok)] else [])
      (\<not> no_verify_tls a) = Inr resp"
  shows "fst (fetch a w key) =
    (if 400 \<le> status_code resp \<and> status_code resp < 600 then Inl (HTTPError resp)
     else Inr (content resp))"
  using assms(2)
  by (simp add: fetch_session_done[OF assms(1)] start_download_session_world download_file_result)


text \<open>
  C5, as the code has it. The download raises \<^verbatim>\<open>HTTPError\<close>, carrying the response with
  its status code and body, exactly when the status code is from 400 to 599, and returns the
  body of the response for every other status code. When the download of a run raises it,
  \<^verbatim>\<open>main\<close> returns 1, the one line it prints on the error stream holds the status code and
  the body text, and the output directory is as it was. A response with status 403 does so.
\<close>

theorem download_file_http_status:
  "(requests_get w (full_url h u) (if truthy tok then [(''auth_token'', tok)] else []) v =
      Inr resp \<longrightarrow>
      fst (download_file w h (JStr u) tok v) =
        (if 400 \<le> status_code resp \<and> status_code resp < 600 then Inl (HTTPError resp)
         else Inr (content resp))) \<and>
   (read_api_key w (api_key a) (api_key_file a) = Inr (Some key) \<and> key \<noteq> [] \<and>
    mkdir_error w = None \<and>
    fst (start_download_session w (host a) key (include_secrets a) (\<not> no_verify_tls a)) =
      Inr (JStr u, tok) \<and>
    requests_get w (full_url (host a) u) (if truthy tok then [(''auth_token'', tok)] else [])
      (\<not> no_verify_tls a) = Inr resp \<and>
    400 \<le> status_code resp \<and> status_code resp < 600 \<longrightarrow>
      fst (main a w) = Returned 1 \<and>
      stderr (snd (main a w)) =
        stderr w @ [HTTP_error_message (status_code resp) (body_text resp)] \<and>
      stdout (snd (main a w)) = stdout w \<and>
      listing (snd (main a w)) = listing w) \<and>
   fst (download_file forbidden_world ''truenas.local'' (JStr ''/download/1'') (JStr ''abc'') True) =
     Inl (HTTPError \<lparr>status_code = 403, content = ''Forbidden'', body_text = ''Forbidden''\<rparr>) \<and>
   fst (main example_args forbidden_world) = Returned 1 \<and>
   stderr (snd (main example_args forbidden_world)) = [HTTP_error_message 403 ''Forbidden''] \<and>
   listing (snd (main example_args forbidden_world)) = listing forbidden_world"
proof -
  have "fst (main a w) = Returned 1 \<and>
      stderr (snd (main a w)) =
        stderr w @ [HTTP_error_message (status_code resp) (body_text resp)] \<and>
      stdout (snd (main a w)) = stdout w \<and>
      listing (snd (main a w)) = listing w"
    if h: "read_api_key w (api_key a) (api_key_file a) = Inr (Some key)" "key \<noteq> []"
      "mkdir_error w = None"
      "fst (start_download_session w (host a) key (include_secrets a) (\<not> no_verify_tls a)) =
        Inr (JStr u, tok)"
      "requests_get w (full_url (host a) u) (if truthy tok then [(''auth_token'', tok)] else [])
        (\<not> no_verify_tls a) = Inr resp"
      "400 \<le> status_code resp" "status_code resp < 600"
  proof -
    from h(6,7) have "fst (fetch a w key) = Inl (HTTPError resp)"
      by (simp add: fetch_http_failed[OF h(4) h(5)])
    with h(1-3) show ?thesis
      by (simp add: main_fetch_failed fetch_frame)
  qed
  moreover have "fst (download_file forbidden_world ''truenas.local'' (JStr ''/download/1'')
      (JStr ''abc'') True) =
     Inl (HTTPError \<lparr>status_code = 403, content = ''Forbidden'', body_text = ''Forbidden''\<rparr>)"
    "fst (main example_args forbidden_world) = Returned 1"
    "stderr (snd (main example_args forbidden_world)) = [HTTP_error_message 403 ''Forbidden'']"
    "listing (snd (main example_args forbidden_world)) = listing forbidden_world"
    by code_simp+
  ultimately show ?thesis
    using download_file_result[of w h u tok v resp] by blast
qed

theorem download_file_http_status_witness:
  "fst (download_file example_world ''truenas.local'' (JStr ''/download/1'') (JStr ''abc'') True) =
     Inr ''archive'' \<and>
   fst (main example_args (example_world\<lparr>requests_get := requests_get forbidden_world,
      stderr := [Wrote_message ''earlier'']\<rparr>)) = Returned 1 \<and>
   stderr (snd (main example_args (example_world\<lparr>requests_get := requests_get forbidden_world,
      stderr := [Wrote_message ''earlier'']\<rparr>))) =
     [Wrote_message ''earlier'', HTTP_error_message 403 ''Forbidden''] \<and>
   listing (snd (main example_args (example_world\<lparr>requests_get := requests_get forbidden_world,
      stderr := [Wrote_message ''earlier'']\<rparr>))) = five_backups"
proof -
  let ?w = "example_world\<lparr>requests_get := requests_get forbidden_world,
      stderr := [Wrote_message ''earlier'']\<rparr>"
  let ?r = "\<lparr>status_code = 403, content = ''Forbidden'', body_text = ''Forbidden''\<rparr>"
  have g: "requests_get example_world (full_url ''truenas.local'' ''/download/1'')
      (if truthy (JStr ''abc'') then [(''auth_token'', JStr ''abc'')] else []) True =
      Inr \<lparr>status_code = 200, content = ''archive'', body_text = ''archive''\<rparr>"
    by code_simp
  have h: "read_api_key ?w (api_key example_args) (api_key_file example_args) =
      Inr (Some ''from-flag'')" "''from-flag'' \<noteq> []" "mkdir_error ?w = None"
    "fst (start_download_session ?w (host example_args) ''from-flag''
      (include_secrets example_args) (\<not> no_verify_tls example_args)) =
      Inr (JStr ''/download/1'', JStr ''abc'')"
    "requests_get ?w (full_url (host example_args) ''/download/1'')
      (if truthy (JStr ''abc'') then [(''auth_token'', JStr ''abc'')] else [])
      (\<not> no_verify_tls example_args) = Inr ?r"
    "stderr ?w = [Wrote_message ''earlier'']" "listing ?w = five_backups"
    by code_simp+
  show ?thesis
    using download_file_http_status[where w = example_world and h = "''truenas.local''"
        and u = "''/download/1''" and tok = "JStr ''abc''" and v = True
        and resp = "\<lparr>status_code = 200, content = ''archive'', body_text = ''archive''\<rparr>"
        and a = example_args and key = "''from-flag''"]
      download_file_http_status[where w = ?w and h = "''truenas.local''"
        and u = "''/download/1''" and tok = "JStr ''abc''" and v = True and resp = ?r
        and a = example_args and key = "''from-flag''"]
      g h
    by simp
qed

text \<open>
  A response with status 304 is not a 2xx response, and the download returns its body: the
  run writes it as a backup and returns 0.
\<close>

theorem download_file_not_modified_counterexample:
  "fst (download_file not_modified_world ''truenas.local'' (JStr ''/download/1'') (JStr ''abc'')
      True) = Inr [] \<and>
   fst (main example_args not_modified_world) = Returned 0 \<and>
   map name (listing (snd (main example_args not_modified_world))) =
     [''truenas_config_20240105_020000.tar'', ''truenas_config_20240104_020000.tar'',
      ''truenas_config_20240106_020000.tar'']"
  by code_simp







end
